theory Spec2Isabelle
  imports Main
begin

section \<open>Data model\<close>

text \<open>
  Python's \<open>datetime.time\<close>, as a naive wall-clock time: the four integer fields that
  comparison and the constructor look at. A value built by Python satisfies \<open>valid_time\<close>.
\<close>

record time =
  hour :: int
  minute :: int
  second :: int
  microsecond :: int

definition valid_time :: "time \<Rightarrow> bool" where
  "valid_time t \<longleftrightarrow>
     0 \<le> hour t \<and> hour t < 24 \<and> 0 \<le> minute t \<and> minute t < 60 \<and>
     0 \<le> second t \<and> second t < 60 \<and> 0 \<le> microsecond t \<and> microsecond t < 1000000"

text \<open>\<open>datetime.date\<close>: year, month, day. Only its identity as a key matters here.\<close>

datatype date = Date int int int

text \<open>\<open>datetime.datetime\<close> as read from the wall clock: a date and a time of day.\<close>

record datetime =
  dt_date :: date
  dt_time :: time

text \<open>
  \<open>datetime.timedelta\<close>: a signed duration, held as its total number of microseconds
  (comparison, equality and truthiness of a timedelta depend on nothing else).
\<close>

type_synonym timedelta = int

definition hours :: "int \<Rightarrow> timedelta" where
  "hours n = n * 3600000000"

definition minutes :: "int \<Rightarrow> timedelta" where
  "minutes n = n * 60000000"

text \<open>
  The exceptions of the engine, one constructor per raising site:
  \<open>time(...)\<close> out of range, \<open>stop\<close> before \<open>start\<close>, \<open>track\<close> without a begin,
  \<open>remove\<close> refused by the store, and a failure inside the \<open>duration\<close> property.
\<close>

datatype error =
    ValueError_time_range
  | RuntimeError_not_started
  | ValueError_no_begin
  | ValueError_remove_failed
  | DurationError

text \<open>
  Modelled from the spec: the enumeration \<open>AbsenceType\<close> of \<open>clocker.model\<close>, which is
  not part of the source at hand; the spec names vacation, sick and holiday.
\<close>

datatype AbsenceType = VACATION | SICK | HOLIDAY

text \<open>
  Modelled from the spec: the class \<open>WorkDay\<close> of \<open>clocker.model\<close>, which is not part of
  the source at hand. One record per date; \<open>begin\<close>, \<open>end\<close> and \<open>absence\<close> are optional,
  \<open>pause\<close> is a duration. The fields \<open>begin\<close> and \<open>end\<close> are named \<open>begin_time\<close> and
  \<open>end_time\<close> here.
\<close>

record WorkDay =
  date :: date
  begin_time :: "time option"
  end_time :: "time option"
  pause :: timedelta
  absence :: "AbsenceType option"

text \<open>
  Modelled from the spec: the constructor call \<open>WorkDay(day)\<close>; every field but the
  date takes its default, which is absent for \<open>begin\<close>, \<open>end\<close>, \<open>absence\<close> and zero for
  \<open>pause\<close>.
\<close>

definition new_WorkDay :: "date \<Rightarrow> WorkDay" where
  "new_WorkDay d =
     \<lparr>date = d, begin_time = None, end_time = None, pause = 0, absence = None\<rparr>"

definition time_micros :: "time \<Rightarrow> int" where
  "time_micros t =
     ((hour t * 60 + minute t) * 60 + second t) * 1000000 + microsecond t"

text \<open>
  Modelled from the spec: the property \<open>WorkDay.duration\<close> of \<open>clocker.model\<close>, which is
  not part of the source at hand. The spec gives its value, \<open>end - begin - pause\<close>, when
  the times are there. What the property does on a record that lacks one of them is not
  known; it is the parameter \<open>dur0\<close>, which may return a duration or raise.
\<close>

definition duration :: "(WorkDay \<Rightarrow> error + timedelta) \<Rightarrow> WorkDay \<Rightarrow> error + timedelta" where
  "duration dur0 wd =
     (case (begin_time wd, end_time wd) of
        (Some b, Some e) \<Rightarrow> Inr (time_micros e - time_micros b - pause wd)
      | _ \<Rightarrow> dur0 wd)"

text \<open>
  Modelled from the spec: the configuration provider \<open>Settings\<close> of \<open>clocker.settings\<close>,
  reduced to the two options the engine reads. \<open>RoundToQuarter\<close> is the truth value of
  \<open>read('Behavior', 'RoundToQuarter')\<close>; \<open>DefaultPauseTime\<close> is the optional duration that
  \<open>read('Work', 'DefaultPauseTime')\<close> returns.
\<close>

record Settings =
  RoundToQuarter :: bool
  DefaultPauseTime :: "timedelta option"

text \<open>
  Modelled from the spec: the persistence store \<open>Database\<close> of \<open>clocker.database\<close>, by its
  contract: \<open>load\<close> by date, \<open>store\<close> with create-or-replace under the record's date,
  \<open>remove\<close> telling whether a record was deleted. A loaded record is a value of its own:
  changing it does not change the store.
\<close>

type_synonym Database = "date \<rightharpoonup> WorkDay"

definition db_load :: "Database \<Rightarrow> date \<Rightarrow> WorkDay option" where
  "db_load db d = db d"

definition db_store :: "Database \<Rightarrow> WorkDay \<Rightarrow> Database" where
  "db_store db wd = db(date wd \<mapsto> wd)"

definition db_remove :: "Database \<Rightarrow> date \<Rightarrow> bool \<times> Database" where
  "db_remove db d = (db d \<noteq> None, db(d := None))"

section \<open>Quarter rounding\<close>

text \<open>The constructor call \<open>time(hours, minutes)\<close>: seconds and microseconds are zero.\<close>

definition time_ctor :: "int \<Rightarrow> int \<Rightarrow> error + time" where
  "time_ctor h m =
     (if 0 \<le> h \<and> h < 24 \<and> 0 \<le> m \<and> m < 60
      then Inr \<lparr>hour = h, minute = m, second = 0, microsecond = 0\<rparr>
      else Inl ValueError_time_range)"

text \<open>\<open>_round\<close>: Python's \<open>//\<close> is floor division, as \<open>div\<close> on \<open>int\<close>.\<close>

definition round_int :: "int \<Rightarrow> int \<Rightarrow> int" where
  "round_int v resolution = resolution * (v div resolution)"

definition advance_time :: "int \<Rightarrow> int \<Rightarrow> error + time" where
  "advance_time hrs mins =
     (if mins = 60 then time_ctor (if hrs \<noteq> 23 then hrs + 1 else 0) 0
      else time_ctor hrs mins)"

definition round_quarter :: "time \<Rightarrow> int \<Rightarrow> error + time" where
  "round_quarter v threshold =
     (let quarter = 15;
          remainder = minute v mod quarter;
          mins = (if remainder > threshold then round_int (minute v + quarter) quarter
                  else round_int (minute v) quarter)
      in advance_time (hour v) mins)"

definition round_prev_quarter :: "time \<Rightarrow> error + time" where
  "round_prev_quarter v = round_quarter v 10"

definition round_next_quarter :: "time \<Rightarrow> error + time" where
  "round_next_quarter v = round_quarter v 5"

text \<open>
  The rounding rule in the words of the specification, on minutes since midnight: with
  \<open>r = minute mod 15\<close>, go down to the previous multiple of 15 minutes, and 15 minutes
  further when \<open>r\<close> exceeds the threshold; the hour after 23 is 0.
\<close>

definition minutes_of_day :: "time \<Rightarrow> int" where
  "minutes_of_day t = 60 * hour t + minute t"

definition of_minutes :: "int \<Rightarrow> time" where
  "of_minutes n = \<lparr>hour = n div 60, minute = n mod 60, second = 0, microsecond = 0\<rparr>"

definition quarter_rule :: "int \<Rightarrow> time \<Rightarrow> time" where
  "quarter_rule threshold t =
     (let r = minute t mod 15;
          down = minutes_of_day t - r
      in of_minutes ((if r > threshold then down + 15 else down) mod 1440))"

definition hm :: "int \<Rightarrow> int \<Rightarrow> time" where
  "hm h m = \<lparr>hour = h, minute = m, second = 0, microsecond = 0\<rparr>"

section \<open>Tracking engine\<close>

text \<open>
  \<open>a or b\<close> on an optional time: a \<open>time\<close> object is always true (since Python 3.5, and
  the source needs 3.6 for its f-strings), so only \<open>None\<close> falls through to \<open>b\<close>.
\<close>

definition or_time :: "time option \<Rightarrow> time option \<Rightarrow> time option" where
  "or_time a b = (case a of Some t \<Rightarrow> Some t | None \<Rightarrow> b)"

text \<open>\<open>a or b\<close> on an optional timedelta: \<open>None\<close> and \<open>timedelta(0)\<close> are both false.\<close>

definition or_timedelta :: "timedelta option \<Rightarrow> timedelta \<Rightarrow> timedelta" where
  "or_timedelta a b = (case a of Some p \<Rightarrow> if p \<noteq> 0 then p else b | None \<Rightarrow> b)"

text \<open>Comparison of naive times: by hour, minute, second, microsecond in that order.\<close>

definition time_le :: "time \<Rightarrow> time \<Rightarrow> bool" where
  "time_le a b \<longleftrightarrow>
     hour a < hour b \<or> (hour a = hour b \<and>
       (minute a < minute b \<or> (minute a = minute b \<and>
         (second a < second b \<or> (second a = second b \<and> microsecond a \<le> microsecond b)))))"

text \<open>\<open>Tracker.__set_pause\<close>; the record is returned instead of changed in place.\<close>

definition set_pause ::
  "(WorkDay \<Rightarrow> error + timedelta) \<Rightarrow> Settings \<Rightarrow> WorkDay \<Rightarrow> error + WorkDay" where
  "set_pause dur0 settings workday =
     (if pause workday > 0 then Inr workday
      else if end_time workday \<noteq> None then
        (case duration dur0 workday of
           Inl e \<Rightarrow> Inl e
         | Inr d \<Rightarrow>
             if d > hours 6 then
               (case DefaultPauseTime settings of
                  Some p \<Rightarrow> if p \<noteq> 0 then Inr (workday\<lparr>pause := p\<rparr>) else Inr workday
                | None \<Rightarrow> Inr workday)
             else Inr workday)
      else Inr workday)"

text \<open>
  The engine's operations take the store and, where the source reads the clock, the
  captured \<open>now\<close>; they return what the caller gets (a record or the exception raised)
  and the store afterwards. In \<open>start\<close>, \<open>if workday:\<close> holds for every record that
  was loaded: a \<open>WorkDay\<close> object is true.
\<close>

definition start :: "Settings \<Rightarrow> Database \<Rightarrow> datetime \<Rightarrow> (error + WorkDay) \<times> Database" where
  "start settings db now =
     (case db_load db (dt_date now) of
        Some workday \<Rightarrow> (Inr workday, db)
      | None \<Rightarrow>
          (case (if RoundToQuarter settings then round_prev_quarter (dt_time now)
                 else Inr ((dt_time now)\<lparr>microsecond := 0\<rparr>)) of
             Inl e \<Rightarrow> (Inl e, db)
           | Inr b \<Rightarrow>
               (let workday = (new_WorkDay (dt_date now))\<lparr>begin_time := Some b\<rparr>
                in (Inr workday, db_store db workday))))"

text \<open>The candidate end time that \<open>stop\<close> computes from the captured \<open>now\<close>.\<close>

definition stop_candidate :: "Settings \<Rightarrow> datetime \<Rightarrow> error + time" where
  "stop_candidate settings now =
     (if RoundToQuarter settings then round_next_quarter (dt_time now)
      else Inr ((dt_time now)\<lparr>microsecond := 0\<rparr>))"

definition stop ::
  "(WorkDay \<Rightarrow> error + timedelta) \<Rightarrow> Settings \<Rightarrow> Database \<Rightarrow> datetime
     \<Rightarrow> (error + WorkDay) \<times> Database" where
  "stop dur0 settings db now =
     (case db_load db (dt_date now) of
        None \<Rightarrow> (Inl RuntimeError_not_started, db)
      | Some workday \<Rightarrow>
          (case stop_candidate settings now of
             Inl e \<Rightarrow> (Inl e, db)
           | Inr e \<Rightarrow>
               (case end_time workday of
                  Some old_end \<Rightarrow>
                    if time_le e old_end then (Inr workday, db)
                    else (case set_pause dur0 settings (workday\<lparr>end_time := Some e\<rparr>) of
                            Inl err \<Rightarrow> (Inl err, db)
                          | Inr workday' \<Rightarrow> (Inr workday', db_store db workday'))
                | None \<Rightarrow>
                    (case set_pause dur0 settings (workday\<lparr>end_time := Some e\<rparr>) of
                       Inl err \<Rightarrow> (Inl err, db)
                     | Inr workday' \<Rightarrow> (Inr workday', db_store db workday')))))"

text \<open>The record of \<open>track\<close> after the three assignments, before pause inference.\<close>

definition track_merge ::
  "Database \<Rightarrow> date \<Rightarrow> time option \<Rightarrow> time option \<Rightarrow> timedelta option \<Rightarrow> WorkDay" where
  "track_merge db day b e p =
     (let workday = (case db_load db day of None \<Rightarrow> new_WorkDay day | Some w \<Rightarrow> w);
          workday = workday\<lparr>begin_time := or_time b (begin_time workday)\<rparr>;
          workday = workday\<lparr>end_time := or_time e (end_time workday)\<rparr>
      in workday\<lparr>pause := or_timedelta p (pause workday)\<rparr>)"

definition track ::
  "(WorkDay \<Rightarrow> error + timedelta) \<Rightarrow> Settings \<Rightarrow> Database \<Rightarrow> date
     \<Rightarrow> time option \<Rightarrow> time option \<Rightarrow> timedelta option \<Rightarrow> (error + WorkDay) \<times> Database" where
  "track dur0 settings db day b e p =
     (let workday = track_merge db day b e p
      in case (if pause workday = 0 then set_pause dur0 settings workday else Inr workday) of
           Inl err \<Rightarrow> (Inl err, db)
         | Inr workday' \<Rightarrow>
             if begin_time workday' = None then (Inl ValueError_no_begin, db)
             else (Inr workday', db_store db workday'))"

definition remove :: "Database \<Rightarrow> date \<Rightarrow> (error + unit) \<times> Database" where
  "remove db day =
     (case db_load db day of
        None \<Rightarrow> (Inr (), db)
      | Some workday \<Rightarrow>
          (case db_remove db day of
             (True, db') \<Rightarrow> (Inr (), db')
           | (False, db') \<Rightarrow> (Inl ValueError_remove_failed, db')))"

definition notify :: "Database \<Rightarrow> date \<Rightarrow> AbsenceType \<Rightarrow> WorkDay \<times> Database" where
  "notify db day absence_type =
     (let workday = (new_WorkDay day)\<lparr>absence := Some absence_type\<rparr>
      in (workday, db_store db workday))"

text \<open>A run of the engine: one constructor per operation, with the clock as input.\<close>

datatype operation =
    Start datetime
  | Stop datetime
  | Track date "time option" "time option" "timedelta option"
  | Remove date
  | Notify date AbsenceType

fun step ::
  "(WorkDay \<Rightarrow> error + timedelta) \<Rightarrow> Settings \<Rightarrow> Database \<Rightarrow> operation \<Rightarrow> Database" where
  "step dur0 settings db (Start now) = snd (start settings db now)"
| "step dur0 settings db (Stop now) = snd (stop dur0 settings db now)"
| "step dur0 settings db (Track day b e p) = snd (track dur0 settings db day b e p)"
| "step dur0 settings db (Remove day) = snd (remove db day)"
| "step dur0 settings db (Notify day a) = snd (notify db day a)"

definition run ::
  "(WorkDay \<Rightarrow> error + timedelta) \<Rightarrow> Settings \<Rightarrow> operation list \<Rightarrow> Database" where
  "run dur0 settings ops = foldl (step dur0 settings) Map.empty ops"

section \<open>Runs of the engine and sample inputs\<close>

text \<open>
  The conditions under which no negative pause enters the store: every pause handed to
  \<open>track\<close> is non-negative, and so is the configured default pause.
\<close>

fun pause_arg_ok :: "operation \<Rightarrow> bool" where
  "pause_arg_ok (Track day b e (Some p)) = (0 \<le> p)"
| "pause_arg_ok _ = True"

definition default_pause_ok :: "Settings \<Rightarrow> bool" where
  "default_pause_ok settings =
     (case DefaultPauseTime settings of None \<Rightarrow> True | Some p \<Rightarrow> 0 \<le> p)"

definition pauses_ok :: "Database \<Rightarrow> bool" where
  "pauses_ok db \<longleftrightarrow> (\<forall>wd \<in> ran db. 0 \<le> pause wd)"

text \<open>
  A \<open>duration\<close> property that raises on every record without both times, and the
  records, settings and clock readings that the examples below use.
\<close>

definition dur_raises :: "WorkDay \<Rightarrow> error + timedelta" where
  "dur_raises wd = Inl DurationError"

definition day1 :: date where "day1 = Date 2021 3 1"

definition cfg1 :: Settings where
  "cfg1 = \<lparr>RoundToQuarter = True, DefaultPauseTime = Some (hours 1)\<rparr>"

definition worked :: "time \<Rightarrow> time option \<Rightarrow> timedelta \<Rightarrow> WorkDay" where
  "worked b e p = \<lparr>date = day1, begin_time = Some b, end_time = e, pause = p, absence = None\<rparr>"

definition absent :: "AbsenceType \<Rightarrow> WorkDay" where
  "absent a = \<lparr>date = day1, begin_time = None, end_time = None, pause = 0, absence = Some a\<rparr>"

definition at :: "time \<Rightarrow> datetime" where
  "at t = \<lparr>dt_date = day1, dt_time = t\<rparr>"

definition ops1 :: "operation list" where
  "ops1 = [Track day1 (Some (hm 8 0)) (Some (hm 17 0)) (Some 0), Notify day1 SICK,
           Track day1 (Some (hm 9 0)) None (Some (minutes 45))]"

section \<open>Facts about quarter rounding\<close>

lemma of_minutes_quarter:
  assumes "0 \<le> h" "h < 24" "q \<in> {0, 1, 2, 3}"
  shows "of_minutes ((60 * h + 15 * q) mod 1440) = hm h (15 * q)"
proof -
  have "(60 * h + 15 * q) mod 1440 = 60 * h + 15 * q" using assms by auto
  moreover have "(60 * h + 15 * q) div 60 = h" "(60 * h + 15 * q) mod 60 = 15 * q"
    using assms by auto
  ultimately show ?thesis by (simp add: of_minutes_def hm_def)
qed

lemma of_minutes_next_hour:
  assumes "0 \<le> h" "h < 24"
  shows "of_minutes ((60 * h + 60) mod 1440) = hm (if h \<noteq> 23 then h + 1 else 0) 0"
proof (cases "h = 23")
  case True
  then show ?thesis by (simp add: of_minutes_def hm_def)
next
  case False
  with assms have b: "h + 1 < 24" by simp
  have "60 * h + 60 = 60 * (h + 1) + 15 * 0" by simp
  then have "of_minutes ((60 * h + 60) mod 1440) = hm (h + 1) (15 * 0)"
    using of_minutes_quarter[of "h + 1" 0] assms b by simp
  with False show ?thesis by simp
qed

lemma time_ctor_hm:
  "0 \<le> h \<Longrightarrow> h < 24 \<Longrightarrow> 0 \<le> m \<Longrightarrow> m < 60 \<Longrightarrow> time_ctor h m = Inr (hm h m)"
  by (simp add: time_ctor_def hm_def)

text \<open>The code and the rule agree on every valid time, whatever the threshold.\<close>

lemma round_quarter_rule:
  assumes "valid_time t"
  shows "round_quarter t thr = Inr (quarter_rule thr t)"
proof -
  from assms have h: "0 \<le> hour t" "hour t < 24" and m: "0 \<le> minute t" "minute t < 60"
    by (simp_all add: valid_time_def)
  define q where "q = minute t div 15"
  define r where "r = minute t mod 15"
  have mq: "minute t - r = 15 * q" by (simp add: q_def r_def minus_mod_eq_mult_div)
  have q: "q \<in> {0, 1, 2, 3}" using m unfolding q_def by auto
  have down: "minutes_of_day t - r = 60 * hour t + 15 * q"
    using mq by (simp add: minutes_of_day_def)
  show ?thesis
  proof (cases "r > thr")
    case False
    have "round_int (minute t) 15 = 15 * q"
      by (simp add: round_int_def q_def)
    with False have "round_quarter t thr = advance_time (hour t) (15 * q)"
      by (simp add: round_quarter_def Let_def r_def[symmetric])
    also have "\<dots> = Inr (hm (hour t) (15 * q))"
      using h q by (auto simp: advance_time_def time_ctor_hm)
    finally have lhs: "round_quarter t thr = Inr (hm (hour t) (15 * q))" .
    have "quarter_rule thr t = of_minutes ((60 * hour t + 15 * q) mod 1440)"
      using False down by (simp add: quarter_rule_def Let_def r_def[symmetric])
    with lhs show ?thesis using of_minutes_quarter[OF h q] by simp
  next
    case True
    have "(minute t + 15) div 15 = q + 1" by (simp add: q_def)
    then have "round_int (minute t + 15) 15 = 15 * q + 15"
      by (simp add: round_int_def)
    with True have "round_quarter t thr = advance_time (hour t) (15 * q + 15)"
      by (simp add: round_quarter_def Let_def r_def[symmetric])
    also have "\<dots> = Inr (if q = 3 then hm (if hour t \<noteq> 23 then hour t + 1 else 0) 0
                           else hm (hour t) (15 * (q + 1)))"
      using h q by (auto simp: advance_time_def time_ctor_hm)
    finally have lhs:
      "round_quarter t thr = Inr (if q = 3 then hm (if hour t \<noteq> 23 then hour t + 1 else 0) 0
                                  else hm (hour t) (15 * (q + 1)))" .
    have up: "minutes_of_day t - r + 15 = 60 * hour t + 15 * (q + 1)"
      using down by (simp add: algebra_simps)
    have "quarter_rule thr t = of_minutes ((minutes_of_day t - r + 15) mod 1440)"
      using True by (simp add: quarter_rule_def Let_def r_def[symmetric])
    then have rhs: "quarter_rule thr t = of_minutes ((60 * hour t + 15 * (q + 1)) mod 1440)"
      by (simp only: up)
    show ?thesis
    proof (cases "q = 3")
      case True
      then show ?thesis using lhs rhs of_minutes_next_hour[OF h] by simp
    next
      case False
      with q have "q + 1 \<in> {0, 1, 2, 3}" by auto
      from of_minutes_quarter[OF h this] show ?thesis using lhs rhs False by simp
    qed
  qed
qed

lemma quarter_rule_aligned:
  assumes "valid_time t" "minute t mod 15 = 0" "0 \<le> thr"
  shows "quarter_rule thr t = t\<lparr>second := 0, microsecond := 0\<rparr>"
proof -
  from assms have h: "0 \<le> hour t" "hour t < 24" and m: "0 \<le> minute t" "minute t < 60"
    by (simp_all add: valid_time_def)
  have "(60 * hour t + minute t) mod 1440 = 60 * hour t + minute t" using h m by auto
  moreover have "(60 * hour t + minute t) div 60 = hour t"
    "(60 * hour t + minute t) mod 60 = minute t" using m by auto
  ultimately show ?thesis
    using assms(2,3) by (simp add: quarter_rule_def Let_def minutes_of_day_def of_minutes_def)
qed

text \<open>
  C1. On every time of day, \<open>round_prev_quarter\<close> (threshold 10) and
  \<open>round_next_quarter\<close> (threshold 5) follow the core rule: with \<open>r = minute mod 15\<close>
  the time goes up to the next multiple of 15 minutes when \<open>r\<close> exceeds the threshold and
  down to the previous one otherwise, the hour after 23 being 0; and the six worked
  examples of the docstrings hold.
\<close>

theorem round_quarters_follow_core_rule:
  assumes "valid_time t"
  shows "round_prev_quarter t = Inr (quarter_rule 10 t) \<and>
         round_next_quarter t = Inr (quarter_rule 5 t) \<and>
         round_prev_quarter (hm 8 30) = Inr (hm 8 30) \<and>
         round_prev_quarter (hm 8 40) = Inr (hm 8 30) \<and>
         round_prev_quarter (hm 8 41) = Inr (hm 8 45) \<and>
         round_next_quarter (hm 8 30) = Inr (hm 8 30) \<and>
         round_next_quarter (hm 8 35) = Inr (hm 8 30) \<and>
         round_next_quarter (hm 8 36) = Inr (hm 8 45)"
proof -
  have ex: "round_prev_quarter (hm 8 30) = Inr (hm 8 30)"
    "round_prev_quarter (hm 8 40) = Inr (hm 8 30)"
    "round_prev_quarter (hm 8 41) = Inr (hm 8 45)"
    "round_next_quarter (hm 8 30) = Inr (hm 8 30)"
    "round_next_quarter (hm 8 35) = Inr (hm 8 30)"
    "round_next_quarter (hm 8 36) = Inr (hm 8 45)"
    by (simp_all add: round_prev_quarter_def round_next_quarter_def round_quarter_def
        round_int_def advance_time_def time_ctor_def hm_def)
  from assms have "round_prev_quarter t = Inr (quarter_rule 10 t)"
    "round_next_quarter t = Inr (quarter_rule 5 t)"
    by (simp_all add: round_prev_quarter_def round_next_quarter_def round_quarter_rule)
  with ex show ?thesis by simp
qed

text \<open>The rule at 23:58:30.000007: the previous and the next quarter are both 00:00.\<close>

theorem round_quarters_follow_core_rule_witness:
  "valid_time \<lparr>hour = 23, minute = 58, second = 30, microsecond = 7\<rparr> \<and>
   round_prev_quarter \<lparr>hour = 23, minute = 58, second = 30, microsecond = 7\<rparr> = Inr (hm 0 0) \<and>
   round_next_quarter \<lparr>hour = 23, minute = 58, second = 30, microsecond = 7\<rparr> = Inr (hm 0 0) \<and>
   round_next_quarter \<lparr>hour = 23, minute = 50, second = 0, microsecond = 0\<rparr> = Inr (hm 23 45)"
proof -
  have v: "valid_time \<lparr>hour = 23, minute = 58, second = 30, microsecond = 7\<rparr>"
    "valid_time \<lparr>hour = 23, minute = 50, second = 0, microsecond = 0\<rparr>"
    by (simp_all add: valid_time_def)
  show ?thesis
    using v round_quarters_follow_core_rule[OF v(1)] round_quarters_follow_core_rule[OF v(2)]
    by (simp add: quarter_rule_def minutes_of_day_def of_minutes_def hm_def)
qed

text \<open>
  C8, as the code has it. The rounding functions build their result from the hour and the
  minute alone, so a quarter-aligned time comes back with its seconds and microseconds
  cleared: it is returned unchanged exactly when it has none.
\<close>

theorem round_quarter_aligned:
  assumes "valid_time t" "minute t mod 15 = 0"
  shows "round_prev_quarter t = Inr (t\<lparr>second := 0, microsecond := 0\<rparr>) \<and>
         round_next_quarter t = Inr (t\<lparr>second := 0, microsecond := 0\<rparr>) \<and>
         (second t = 0 \<and> microsecond t = 0 \<longrightarrow>
            round_prev_quarter t = Inr t \<and> round_next_quarter t = Inr t)"
proof -
  have "round_prev_quarter t = Inr (t\<lparr>second := 0, microsecond := 0\<rparr>)"
    "round_next_quarter t = Inr (t\<lparr>second := 0, microsecond := 0\<rparr>)"
    using assms
    by (simp_all add: round_prev_quarter_def round_next_quarter_def round_quarter_rule
        quarter_rule_aligned)
  then show ?thesis by simp
qed

theorem round_quarter_aligned_witness:
  "valid_time (hm 23 45) \<and> minute (hm 23 45) mod 15 = 0 \<and>
   second (hm 23 45) = 0 \<and> microsecond (hm 23 45) = 0 \<and>
   round_prev_quarter (hm 23 45) = Inr (hm 23 45) \<and>
   round_next_quarter (hm 23 45) = Inr (hm 23 45)"
proof -
  have v: "valid_time (hm 23 45)" "minute (hm 23 45) mod 15 = 0"
    by (simp_all add: valid_time_def hm_def)
  show ?thesis using v round_quarter_aligned[OF v] by (simp add: hm_def)
qed

text \<open>
  C8 as stated fails: 08:30:25 is quarter-aligned, and both functions return 08:30:00.
\<close>

theorem round_quarter_aligned_counterexample:
  "minute \<lparr>hour = 8, minute = 30, second = 25, microsecond = 0\<rparr> mod 15 = 0 \<and>
   round_prev_quarter \<lparr>hour = 8, minute = 30, second = 25, microsecond = 0\<rparr>
     \<noteq> Inr \<lparr>hour = 8, minute = 30, second = 25, microsecond = 0\<rparr> \<and>
   round_next_quarter \<lparr>hour = 8, minute = 30, second = 25, microsecond = 0\<rparr>
     \<noteq> Inr \<lparr>hour = 8, minute = 30, second = 25, microsecond = 0\<rparr>"
  by (simp add: round_prev_quarter_def round_next_quarter_def round_quarter_def
      round_int_def advance_time_def time_ctor_def)

section \<open>Facts about the engine\<close>

subsection \<open>Pause inference\<close>

lemma duration_times:
  "begin_time wd = Some b \<Longrightarrow> end_time wd = Some e \<Longrightarrow>
   duration dur0 wd = Inr (time_micros e - time_micros b - pause wd)"
  by (simp add: duration_def)

lemma set_pause_frame:
  assumes "set_pause dur0 settings wd = Inr wd'"
  shows "date wd' = date wd \<and> begin_time wd' = begin_time wd \<and>
         end_time wd' = end_time wd \<and> absence wd' = absence wd"
  using assms by (auto simp: set_pause_def split: if_splits sum.splits option.splits)

lemma set_pause_positive: "0 < pause wd \<Longrightarrow> set_pause dur0 settings wd = Inr wd"
  by (simp add: set_pause_def)

lemma set_pause_no_end: "end_time wd = None \<Longrightarrow> set_pause dur0 settings wd = Inr wd"
  by (simp add: set_pause_def)

lemma set_pause_times:
  assumes "begin_time wd = Some b" "end_time wd = Some e" "pause wd \<le> 0"
  shows "set_pause dur0 settings wd =
           (if time_micros e - time_micros b - pause wd > hours 6 then
              (case DefaultPauseTime settings of
                 Some p \<Rightarrow> if p \<noteq> 0 then Inr (wd\<lparr>pause := p\<rparr>) else Inr wd
               | None \<Rightarrow> Inr wd)
            else Inr wd)"
  using assms by (simp add: set_pause_def duration_times)

lemma set_pause_with_begin:
  assumes "begin_time wd \<noteq> None"
  shows "\<exists>wd'. set_pause dur0 settings wd = Inr wd'"
proof (cases "0 < pause wd \<or> end_time wd = None")
  case True
  then show ?thesis using set_pause_positive set_pause_no_end by blast
next
  case False
  with assms obtain b e where "begin_time wd = Some b" "end_time wd = Some e" "pause wd \<le> 0"
    by auto
  then show ?thesis by (simp add: set_pause_times split: option.splits)
qed

lemma set_pause_defined:
  assumes "begin_time wd \<noteq> None \<or> 0 < pause wd \<or> (\<exists>d. dur0 wd = Inr d)"
  shows "\<exists>wd'. set_pause dur0 settings wd = Inr wd'"
proof (cases "begin_time wd \<noteq> None \<or> 0 < pause wd")
  case True
  then show ?thesis using set_pause_with_begin set_pause_positive by blast
next
  case False
  with assms obtain d where "dur0 wd = Inr d" by blast
  with False have "duration dur0 wd = Inr d" by (simp add: duration_def)
  then show ?thesis by (simp add: set_pause_def split: option.splits)
qed

lemma set_pause_nonneg:
  assumes "default_pause_ok settings" "0 \<le> pause wd" "set_pause dur0 settings wd = Inr wd'"
  shows "0 \<le> pause wd'"
  using assms
  by (auto simp: set_pause_def default_pause_ok_def split: if_splits sum.splits option.splits)

text \<open>
  C2, as the code has it. Pause inference leaves a positive pause alone; its guard is
  \<open>pause > 0\<close>, so it runs on a zero pause and on a negative one alike. On a record with
  begin and end it sets the pause to the configured default when the pause is not
  positive, the duration \<open>end - begin - pause\<close> exceeds 6 hours and the default is
  present and not zero; with a pause of exactly zero this is the stated rule
  (\<open>end - begin\<close> over 6 hours, default present). In every other case (pause positive,
  no end, duration of 6 hours or less, default absent or zero) the record is returned
  as it is, and no error is raised.
\<close>

theorem set_pause_inference:
  shows "(pause wd \<le> 0 \<and> begin_time wd = Some b \<and> end_time wd = Some e \<and>
          time_micros e - time_micros b - pause wd > hours 6 \<and>
          DefaultPauseTime settings = Some p \<and> p \<noteq> 0
            \<longrightarrow> set_pause dur0 settings wd = Inr (wd\<lparr>pause := p\<rparr>)) \<and>
         (pause wd = 0 \<and> begin_time wd = Some b \<and> end_time wd = Some e \<and>
          time_micros e - time_micros b > hours 6 \<and> DefaultPauseTime settings = Some p
            \<longrightarrow> set_pause dur0 settings wd = Inr (wd\<lparr>pause := p\<rparr>)) \<and>
         (0 < pause wd \<or> end_time wd = None \<or>
          (begin_time wd = Some b \<and> end_time wd = Some e \<and>
           (time_micros e - time_micros b - pause wd \<le> hours 6 \<or>
            DefaultPauseTime settings = None \<or> DefaultPauseTime settings = Some 0))
            \<longrightarrow> set_pause dur0 settings wd = Inr wd)"
proof (intro conjI impI)
  assume "pause wd \<le> 0 \<and> begin_time wd = Some b \<and> end_time wd = Some e \<and>
          time_micros e - time_micros b - pause wd > hours 6 \<and>
          DefaultPauseTime settings = Some p \<and> p \<noteq> 0"
  then show "set_pause dur0 settings wd = Inr (wd\<lparr>pause := p\<rparr>)"
    by (simp add: set_pause_times)
next
  assume a: "pause wd = 0 \<and> begin_time wd = Some b \<and> end_time wd = Some e \<and>
          time_micros e - time_micros b > hours 6 \<and> DefaultPauseTime settings = Some p"
  then have "wd\<lparr>pause := 0\<rparr> = wd" by simp
  with a show "set_pause dur0 settings wd = Inr (wd\<lparr>pause := p\<rparr>)"
    by (simp add: set_pause_times)
next
  assume a: "0 < pause wd \<or> end_time wd = None \<or>
          (begin_time wd = Some b \<and> end_time wd = Some e \<and>
           (time_micros e - time_micros b - pause wd \<le> hours 6 \<or>
            DefaultPauseTime settings = None \<or> DefaultPauseTime settings = Some 0))"
  show "set_pause dur0 settings wd = Inr wd"
  proof (cases "0 < pause wd \<or> end_time wd = None")
    case True
    then show ?thesis using set_pause_positive set_pause_no_end by blast
  next
    case False
    with a show ?thesis by (auto simp: set_pause_times)
  qed
qed

text \<open>
  The examples of the specification: 08:00 to 17:00 with a default of one hour gets the
  hour; 08:00 to 13:00 keeps a zero pause; so does 08:00 to 17:00 without a default.
\<close>

theorem set_pause_inference_witness:
  "set_pause dur_raises cfg1 (worked (hm 8 0) (Some (hm 17 0)) 0)
     = Inr (worked (hm 8 0) (Some (hm 17 0)) (hours 1)) \<and>
   set_pause dur_raises cfg1 (worked (hm 8 0) (Some (hm 13 0)) 0)
     = Inr (worked (hm 8 0) (Some (hm 13 0)) 0) \<and>
   set_pause dur_raises (cfg1\<lparr>DefaultPauseTime := None\<rparr>) (worked (hm 8 0) (Some (hm 17 0)) 0)
     = Inr (worked (hm 8 0) (Some (hm 17 0)) 0)"
  using set_pause_inference[of "worked (hm 8 0) (Some (hm 17 0)) 0" "hm 8 0" "hm 17 0" cfg1 "hours 1" dur_raises]
    set_pause_inference[of "worked (hm 8 0) (Some (hm 13 0)) 0" "hm 8 0" "hm 13 0" cfg1 "hours 1" dur_raises]
    set_pause_inference[of "worked (hm 8 0) (Some (hm 17 0)) 0" "hm 8 0" "hm 17 0" "cfg1\<lparr>DefaultPauseTime := None\<rparr>" "hours 1" dur_raises]
  by (simp add: worked_def cfg1_def hm_def hours_def time_micros_def)

text \<open>
  C2 as stated fails on a pause that is not zero but negative, which \<open>track\<close> can
  store: with a pause of minus 30 minutes on 08:00 to 17:00, inference replaces the
  pause by the default of one hour.
\<close>

theorem set_pause_inference_counterexample:
  "pause (worked (hm 8 0) (Some (hm 17 0)) (- minutes 30)) \<noteq> 0 \<and>
   set_pause dur_raises cfg1 (worked (hm 8 0) (Some (hm 17 0)) (- minutes 30))
     = Inr (worked (hm 8 0) (Some (hm 17 0)) (hours 1))"
  by (simp add: set_pause_def duration_def worked_def cfg1_def hm_def hours_def minutes_def time_micros_def)

subsection \<open>\<open>start\<close> and \<open>stop\<close>\<close>

lemma start_loaded: "db (dt_date now) = Some wd \<Longrightarrow> start settings db now = (Inr wd, db)"
  by (simp add: start_def db_load_def)

lemma start_result:
  assumes "start settings db now = (Inr wd1, db1)"
  shows "db1 (dt_date now) = Some wd1"
proof (cases "db (dt_date now)")
  case (Some wd)
  with assms show ?thesis by (simp add: start_loaded)
next
  case None
  with assms show ?thesis
    by (auto simp: start_def db_load_def db_store_def new_WorkDay_def Let_def
        split: sum.splits if_splits)
qed

text \<open>
  C5. \<open>start\<close> is idempotent: when the store has a record for the current date,
  \<open>start\<close> returns it and leaves the store as it is; so a second \<open>start\<close> on the same
  date, after a first one that returned a record, returns the same record and the same
  store, whatever the clock shows then.
\<close>

theorem start_idempotent:
  "(db (dt_date now) = Some wd \<longrightarrow> start settings db now = (Inr wd, db)) \<and>
   (start settings db now = (Inr wd1, db1) \<and> dt_date now2 = dt_date now
      \<longrightarrow> start settings2 db1 now2 = (Inr wd1, db1))"
proof -
  have "start settings2 db1 now2 = (Inr wd1, db1)"
    if "start settings db now = (Inr wd1, db1)" "dt_date now2 = dt_date now"
  proof -
    from start_result[OF that(1)] that(2) have "db1 (dt_date now2) = Some wd1" by simp
    then show ?thesis by (rule start_loaded)
  qed
  then show ?thesis using start_loaded by blast
qed

theorem start_idempotent_witness:
  "start cfg1 Map.empty (at \<lparr>hour = 8, minute = 7, second = 12, microsecond = 345\<rparr>)
     = (Inr (worked (hm 8 0) None 0), [day1 \<mapsto> worked (hm 8 0) None 0]) \<and>
   [day1 \<mapsto> worked (hm 8 0) None 0] day1 = Some (worked (hm 8 0) None 0) \<and>
   start cfg1 [day1 \<mapsto> worked (hm 8 0) None 0] (at (hm 9 30))
     = (Inr (worked (hm 8 0) None 0), [day1 \<mapsto> worked (hm 8 0) None 0])"
proof -
  have s: "start cfg1 Map.empty (at \<lparr>hour = 8, minute = 7, second = 12, microsecond = 345\<rparr>)
     = (Inr (worked (hm 8 0) None 0), [day1 \<mapsto> worked (hm 8 0) None 0])"
    by (simp add: start_def db_load_def db_store_def new_WorkDay_def Let_def at_def cfg1_def
        worked_def hm_def round_prev_quarter_def round_quarter_def round_int_def
        advance_time_def time_ctor_def)
  have d: "dt_date (at (hm 9 30)) = dt_date (at \<lparr>hour = 8, minute = 7, second = 12, microsecond = 345\<rparr>)"
    "dt_date (at (hm 9 30)) = day1"
    by (simp_all add: at_def)
  have l: "[day1 \<mapsto> worked (hm 8 0) None 0] day1 = Some (worked (hm 8 0) None 0)" by simp
  from start_idempotent[where db = Map.empty
      and now = "at \<lparr>hour = 8, minute = 7, second = 12, microsecond = 345\<rparr>"
      and settings = cfg1 and ?wd1.0 = "worked (hm 8 0) None 0"
      and ?db1.0 = "[day1 \<mapsto> worked (hm 8 0) None 0]" and ?now2.0 = "at (hm 9 30)"
      and ?settings2.0 = cfg1]
    start_idempotent[where db = "[day1 \<mapsto> worked (hm 8 0) None 0]" and now = "at (hm 9 30)"
      and settings = cfg1 and wd = "worked (hm 8 0) None 0"
      and ?wd1.0 = "worked (hm 8 0) None 0" and ?db1.0 = "[day1 \<mapsto> worked (hm 8 0) None 0]"
      and ?now2.0 = "at (hm 9 30)" and ?settings2.0 = cfg1] s d l
  show ?thesis by simp
qed

lemma stop_early:
  assumes "db (dt_date now) = Some wd" "end_time wd = Some old_end"
    "stop_candidate settings now = Inr c" "time_le c old_end"
  shows "stop dur0 settings db now = (Inr wd, db)"
  using assms by (simp add: stop_def db_load_def)

lemma stop_later:
  assumes "db (dt_date now) = Some wd" "end_time wd = Some old_end"
    "stop_candidate settings now = Inr c" "\<not> time_le c old_end"
    "set_pause dur0 settings (wd\<lparr>end_time := Some c\<rparr>) = Inr wd'"
  shows "stop dur0 settings db now = (Inr wd', db(date wd \<mapsto> wd'))"
proof -
  from set_pause_frame[OF assms(5)] have "date wd' = date wd" by simp
  with assms show ?thesis by (simp add: stop_def db_load_def db_store_def)
qed

text \<open>
  C4. When today's record has an end already: a candidate that is not later than the
  stored end makes \<open>stop\<close> return the record as it is and leave the store alone; a
  later candidate becomes the record's end, and the record (after pause inference) is
  written under its date. The second half needs pause inference to go through, which it
  does when the record has a begin, or a positive pause, or a \<open>duration\<close> property that
  does not raise on it.
\<close>

theorem stop_again:
  assumes "db (dt_date now) = Some wd" and "end_time wd = Some old_end"
    and "stop_candidate settings now = Inr c"
  shows "(time_le c old_end \<longrightarrow> stop dur0 settings db now = (Inr wd, db)) \<and>
         (\<not> time_le c old_end \<and>
          (begin_time wd \<noteq> None \<or> 0 < pause wd \<or>
           (\<exists>d. dur0 (wd\<lparr>end_time := Some c\<rparr>) = Inr d))
            \<longrightarrow> (\<exists>wd'. stop dur0 settings db now = (Inr wd', db(date wd \<mapsto> wd')) \<and>
                       end_time wd' = Some c \<and> begin_time wd' = begin_time wd \<and>
                       date wd' = date wd \<and> absence wd' = absence wd))"
proof -
  have "\<exists>wd'. stop dur0 settings db now = (Inr wd', db(date wd \<mapsto> wd')) \<and>
          end_time wd' = Some c \<and> begin_time wd' = begin_time wd \<and>
          date wd' = date wd \<and> absence wd' = absence wd"
    if l: "\<not> time_le c old_end"
      and d: "begin_time wd \<noteq> None \<or> 0 < pause wd \<or> (\<exists>d. dur0 (wd\<lparr>end_time := Some c\<rparr>) = Inr d)"
  proof -
    from d have "begin_time (wd\<lparr>end_time := Some c\<rparr>) \<noteq> None \<or> 0 < pause (wd\<lparr>end_time := Some c\<rparr>) \<or>
       (\<exists>d. dur0 (wd\<lparr>end_time := Some c\<rparr>) = Inr d)" by simp
    from set_pause_defined[where wd = "wd\<lparr>end_time := Some c\<rparr>" and ?dur0.0 = dur0
        and settings = settings] this obtain wd'
      where s: "set_pause dur0 settings (wd\<lparr>end_time := Some c\<rparr>) = Inr wd'" by blast
    have "stop dur0 settings db now = (Inr wd', db(date wd \<mapsto> wd'))"
      using assms l s by (rule stop_later)
    with set_pause_frame[OF s] show ?thesis by simp
  qed
  moreover have "stop dur0 settings db now = (Inr wd, db)" if "time_le c old_end"
    using assms that by (rule stop_early)
  ultimately show ?thesis by blast
qed

theorem stop_again_witness:
  "[day1 \<mapsto> worked (hm 8 0) (Some (hm 12 0)) 0] day1 = Some (worked (hm 8 0) (Some (hm 12 0)) 0) \<and>
   stop_candidate cfg1 (at \<lparr>hour = 11, minute = 58, second = 3, microsecond = 9\<rparr>) = Inr (hm 12 0) \<and>
   time_le (hm 12 0) (hm 12 0) \<and>
   stop dur_raises cfg1 [day1 \<mapsto> worked (hm 8 0) (Some (hm 12 0)) 0]
       (at \<lparr>hour = 11, minute = 58, second = 3, microsecond = 9\<rparr>)
     = (Inr (worked (hm 8 0) (Some (hm 12 0)) 0), [day1 \<mapsto> worked (hm 8 0) (Some (hm 12 0)) 0]) \<and>
   stop_candidate cfg1 (at \<lparr>hour = 16, minute = 56, second = 0, microsecond = 0\<rparr>) = Inr (hm 17 0) \<and>
   \<not> time_le (hm 17 0) (hm 12 0) \<and>
   stop dur_raises cfg1 [day1 \<mapsto> worked (hm 8 0) (Some (hm 12 0)) 0]
       (at \<lparr>hour = 16, minute = 56, second = 0, microsecond = 0\<rparr>)
     = (Inr (worked (hm 8 0) (Some (hm 17 0)) (hours 1)),
        [day1 \<mapsto> worked (hm 8 0) (Some (hm 17 0)) (hours 1)])"
proof -
  let ?db = "[day1 \<mapsto> worked (hm 8 0) (Some (hm 12 0)) 0]"
  let ?n1 = "at \<lparr>hour = 11, minute = 58, second = 3, microsecond = 9\<rparr>"
  let ?n2 = "at \<lparr>hour = 16, minute = 56, second = 0, microsecond = 0\<rparr>"
  have l: "?db (dt_date ?n1) = Some (worked (hm 8 0) (Some (hm 12 0)) 0)"
    "?db (dt_date ?n2) = Some (worked (hm 8 0) (Some (hm 12 0)) 0)"
    by (simp_all add: at_def)
  have e: "end_time (worked (hm 8 0) (Some (hm 12 0)) 0) = Some (hm 12 0)"
    by (simp add: worked_def)
  have c: "stop_candidate cfg1 ?n1 = Inr (hm 12 0)" "stop_candidate cfg1 ?n2 = Inr (hm 17 0)"
    by (simp_all add: stop_candidate_def cfg1_def at_def round_next_quarter_def
        round_quarter_def round_int_def advance_time_def time_ctor_def hm_def)
  have t: "time_le (hm 12 0) (hm 12 0)" "\<not> time_le (hm 17 0) (hm 12 0)"
    by (simp_all add: time_le_def hm_def)
  have s: "stop dur_raises cfg1 ?db ?n2
     = (Inr (worked (hm 8 0) (Some (hm 17 0)) (hours 1)),
        [day1 \<mapsto> worked (hm 8 0) (Some (hm 17 0)) (hours 1)])"
    using c(2) t(2)
    by (simp add: stop_def db_load_def db_store_def at_def worked_def set_pause_def
        duration_def time_micros_def hm_def hours_def cfg1_def)
  from stop_again[where db = ?db and now = ?n1 and wd = "worked (hm 8 0) (Some (hm 12 0)) 0"
        and old_end = "hm 12 0" and settings = cfg1 and c = "hm 12 0" and ?dur0.0 = dur_raises]
      stop_again[where db = ?db and now = ?n2 and wd = "worked (hm 8 0) (Some (hm 12 0)) 0"
        and old_end = "hm 12 0" and settings = cfg1 and c = "hm 17 0" and ?dur0.0 = dur_raises]
      l e c t s
  show ?thesis by (simp add: at_def)
qed

subsection \<open>\<open>track\<close>\<close>

lemma track_merge_fields:
  "date (track_merge db day b e p) = (case db day of None \<Rightarrow> day | Some w \<Rightarrow> date w)"
  "begin_time (track_merge db day b e p) =
     or_time b (case db day of None \<Rightarrow> None | Some w \<Rightarrow> begin_time w)"
  "end_time (track_merge db day b e p) =
     or_time e (case db day of None \<Rightarrow> None | Some w \<Rightarrow> end_time w)"
  "pause (track_merge db day b e p) =
     or_timedelta p (case db day of None \<Rightarrow> 0 | Some w \<Rightarrow> pause w)"
  "absence (track_merge db day b e p) = (case db day of None \<Rightarrow> None | Some w \<Rightarrow> absence w)"
  by (simp_all add: track_merge_def db_load_def new_WorkDay_def Let_def split: option.splits)

lemma track_result:
  "track dur0 settings db day b e p = (Inr wd', db') \<Longrightarrow>
     db' = db(date wd' \<mapsto> wd') \<and> begin_time wd' \<noteq> None \<and>
     (wd' = track_merge db day b e p \<or>
      set_pause dur0 settings (track_merge db day b e p) = Inr wd')"
  by (auto simp: track_def Let_def db_store_def split: if_splits sum.splits)

lemma track_begin_present:
  assumes "begin_time (track_merge db day b e p) \<noteq> None"
  shows "\<exists>wd'. track dur0 settings db day b e p = (Inr wd', db_store db wd')"
proof -
  let ?m = "track_merge db day b e p"
  from set_pause_with_begin[OF assms] obtain w where w: "set_pause dur0 settings ?m = Inr w"
    by blast
  have bw: "begin_time w \<noteq> None" using set_pause_frame[OF w] assms by simp
  show ?thesis
  proof (cases "pause ?m = 0")
    case True
    with w bw have "track dur0 settings db day b e p = (Inr w, db_store db w)"
      by (simp add: track_def Let_def)
    then show ?thesis by blast
  next
    case False
    with assms have "track dur0 settings db day b e p = (Inr ?m, db_store db ?m)"
      by (simp add: track_def Let_def)
    then show ?thesis by blast
  qed
qed

lemma track_begin_absent:
  assumes "begin_time (track_merge db day b e p) = None"
  shows "\<exists>err. track dur0 settings db day b e p = (Inl err, db)"
proof -
  let ?m = "track_merge db day b e p"
  have "begin_time w = None" if "set_pause dur0 settings ?m = Inr w" for w
    using set_pause_frame[OF that] assms by simp
  then show ?thesis using assms
    by (auto simp: track_def Let_def split: sum.splits)
qed


text \<open>
  C3, at the input where the code departs from it. The store has 08:00 with a pause of
  30 minutes; \<open>track\<close> is called with a pause of zero and nothing else. The assignment
  \<open>pause or workday.pause\<close> takes \<open>timedelta(0)\<close> for false, so the pause of 30 minutes
  stays and the record is written back as it was. (Begin and end are overwritten
  whenever they are given, and kept otherwise: \<open>track_merge_fields\<close>.)
\<close>

theorem track_zero_pause_not_written:
  "track dur_raises cfg1 [day1 \<mapsto> worked (hm 8 0) None (minutes 30)] day1 None None (Some 0)
     = (Inr (worked (hm 8 0) None (minutes 30)),
        [day1 \<mapsto> worked (hm 8 0) None (minutes 30)])"
  by (simp add: track_def track_merge_def db_load_def db_store_def or_time_def or_timedelta_def
      Let_def worked_def minutes_def)





text \<open>
  C10. \<open>track\<close> does not touch the absence: the record it writes for a date that had a
  record carries that record's absence (and date); so after \<open>notify\<close>, a successful
  \<open>track\<close> stores the times together with the absence marker.
\<close>

theorem track_keeps_absence:
  "(db day = Some wd \<and> track dur0 settings db day b e p = (Inr wd', db')
      \<longrightarrow> absence wd' = absence wd \<and> date wd' = date wd \<and> db' = db(date wd \<mapsto> wd')) \<and>
   (track dur0 settings (snd (notify db day a)) day b e p = (Inr wd', db')
      \<longrightarrow> absence wd' = Some a \<and> begin_time wd' \<noteq> None \<and> db' day = Some wd')"
proof -
  have 1: "absence wd' = absence wd \<and> date wd' = date wd \<and> db' = db(date wd \<mapsto> wd')"
    if "db day = Some wd" "track dur0 settings db day b e p = (Inr wd', db')"
    for db wd wd' db'
  proof -
    from track_result[OF that(2)] have r: "db' = db(date wd' \<mapsto> wd')"
      and c: "wd' = track_merge db day b e p \<or>
              set_pause dur0 settings (track_merge db day b e p) = Inr wd'" by simp_all
    have "absence wd' = absence (track_merge db day b e p) \<and>
          date wd' = date (track_merge db day b e p)"
      using c set_pause_frame by auto
    with that(1) r show ?thesis by (simp add: track_merge_fields)
  qed
  have 2: "absence wd' = Some a \<and> begin_time wd' \<noteq> None \<and> db' day = Some wd'"
    if t: "track dur0 settings (snd (notify db day a)) day b e p = (Inr wd', db')"
  proof -
    define n where "n = (new_WorkDay day)\<lparr>absence := Some a\<rparr>"
    have s: "snd (notify db day a) = db(day \<mapsto> n)"
      by (simp add: notify_def Let_def db_store_def n_def new_WorkDay_def)
    have "(db(day \<mapsto> n)) day = Some n" by simp
    from 1[of "db(day \<mapsto> n)" n wd' db'] t s have "absence wd' = absence n \<and> date wd' = date n \<and>
        db' = (db(day \<mapsto> n))(date n \<mapsto> wd')" by simp
    moreover have "absence n = Some a" "date n = day" by (simp_all add: n_def new_WorkDay_def)
    moreover have "begin_time wd' \<noteq> None" using track_result[OF t] by simp
    ultimately show ?thesis by simp
  qed
  show ?thesis using 1 2 by blast
qed

theorem track_keeps_absence_witness:
  "[day1 \<mapsto> absent SICK] day1 = Some (absent SICK) \<and>
   snd (notify [day1 \<mapsto> absent SICK] day1 SICK) = [day1 \<mapsto> absent SICK] \<and>
   track dur_raises cfg1 [day1 \<mapsto> absent SICK] day1 (Some (hm 8 0)) (Some (hm 12 0)) None
     = (Inr ((absent SICK)\<lparr>begin_time := Some (hm 8 0), end_time := Some (hm 12 0)\<rparr>),
        [day1 \<mapsto> (absent SICK)\<lparr>begin_time := Some (hm 8 0), end_time := Some (hm 12 0)\<rparr>]) \<and>
   absence ((absent SICK)\<lparr>begin_time := Some (hm 8 0), end_time := Some (hm 12 0)\<rparr>) = Some SICK"
proof -
  have n: "snd (notify [day1 \<mapsto> absent SICK] day1 SICK) = [day1 \<mapsto> absent SICK]"
    by (simp add: notify_def Let_def db_store_def new_WorkDay_def absent_def)
  have t: "track dur_raises cfg1 [day1 \<mapsto> absent SICK] day1 (Some (hm 8 0)) (Some (hm 12 0)) None
     = (Inr ((absent SICK)\<lparr>begin_time := Some (hm 8 0), end_time := Some (hm 12 0)\<rparr>),
        [day1 \<mapsto> (absent SICK)\<lparr>begin_time := Some (hm 8 0), end_time := Some (hm 12 0)\<rparr>])"
    by (simp add: track_def track_merge_def db_load_def db_store_def or_time_def
        or_timedelta_def Let_def absent_def set_pause_def duration_def time_micros_def
        hm_def hours_def cfg1_def)
  have l: "[day1 \<mapsto> absent SICK] day1 = Some (absent SICK)" by simp
  from track_keeps_absence[where db = "[day1 \<mapsto> absent SICK]" and day = day1
      and wd = "absent SICK" and ?dur0.0 = dur_raises and settings = cfg1
      and b = "Some (hm 8 0)" and e = "Some (hm 12 0)" and p = None
      and wd' = "(absent SICK)\<lparr>begin_time := Some (hm 8 0), end_time := Some (hm 12 0)\<rparr>"
      and db' = "[day1 \<mapsto> (absent SICK)\<lparr>begin_time := Some (hm 8 0), end_time := Some (hm 12 0)\<rparr>]"
      and a = SICK] n t l
  show ?thesis by (simp add: absent_def)
qed

subsection \<open>\<open>notify\<close>\<close>

text \<open>
  C7. \<open>notify day a\<close> stores, under \<open>day\<close>, a fresh record that carries the absence \<open>a\<close>
  and nothing else (no begin, no end, zero pause), whatever the store held for \<open>day\<close>
  before; the other dates keep their records.
\<close>

theorem notify_replaces_record:
  "notify db day a =
     (\<lparr>date = day, begin_time = None, end_time = None, pause = 0, absence = Some a\<rparr>,
      db(day \<mapsto> \<lparr>date = day, begin_time = None, end_time = None, pause = 0, absence = Some a\<rparr>))"
  by (simp add: notify_def new_WorkDay_def db_store_def Let_def)

subsection \<open>The pause along a run\<close>

lemma pauses_ok_store:
  "pauses_ok db \<Longrightarrow> 0 \<le> pause wd \<Longrightarrow> pauses_ok (db_store db wd)"
  by (auto simp: pauses_ok_def db_store_def ran_def)

lemma pauses_ok_load: "pauses_ok db \<Longrightarrow> db d = Some wd \<Longrightarrow> 0 \<le> pause wd"
  by (auto simp: pauses_ok_def ran_def)

lemma pauses_ok_delete: "pauses_ok db \<Longrightarrow> pauses_ok (db(d := None))"
  by (auto simp: pauses_ok_def ran_def split: if_splits)

lemma start_pauses_ok:
  assumes "pauses_ok db"
  shows "pauses_ok (snd (start settings db now))"
proof (cases "db (dt_date now)")
  case (Some wd)
  with assms show ?thesis by (simp add: start_loaded)
next
  case None
  have "pauses_ok (db_store db ((new_WorkDay (dt_date now))\<lparr>begin_time := Some b\<rparr>))" for b
    using assms by (rule pauses_ok_store) (simp add: new_WorkDay_def)
  with None assms show ?thesis
    by (simp add: start_def db_load_def Let_def split: sum.splits)
qed

lemma stop_pauses_ok:
  assumes "pauses_ok db" "default_pause_ok settings"
  shows "pauses_ok (snd (stop dur0 settings db now))"
proof (cases "db (dt_date now)")
  case None
  with assms show ?thesis by (simp add: stop_def db_load_def)
next
  case (Some wd)
  from pauses_ok_load[OF assms(1) Some] have p: "0 \<le> pause wd" .
  have "pauses_ok (db_store db wd')"
    if "set_pause dur0 settings (wd\<lparr>end_time := Some c\<rparr>) = Inr wd'" for c wd'
  proof -
    from p have "0 \<le> pause (wd\<lparr>end_time := Some c\<rparr>)" by simp
    from set_pause_nonneg[OF assms(2) this that] have "0 \<le> pause wd'" .
    with assms(1) show ?thesis by (rule pauses_ok_store)
  qed
  with Some assms(1) show ?thesis
    by (simp add: stop_def db_load_def split: sum.splits option.splits)
qed

lemma or_timedelta_nonneg:
  "(case p of None \<Rightarrow> True | Some x \<Rightarrow> 0 \<le> x) \<Longrightarrow> 0 \<le> q \<Longrightarrow> 0 \<le> or_timedelta p q"
  by (simp add: or_timedelta_def split: option.splits)

lemma track_pauses_ok:
  assumes "pauses_ok db" "default_pause_ok settings" "pause_arg_ok (Track day b e p)"
  shows "pauses_ok (snd (track dur0 settings db day b e p))"
proof -
  let ?m = "track_merge db day b e p"
  have old: "0 \<le> (case db day of None \<Rightarrow> 0 | Some w \<Rightarrow> pause w)"
    using pauses_ok_load[OF assms(1)] by (simp split: option.splits)
  have arg: "(case p of None \<Rightarrow> True | Some x \<Rightarrow> 0 \<le> x)"
    using assms(3) by (cases p) simp_all
  have m: "0 \<le> pause ?m"
    using or_timedelta_nonneg[OF arg old] by (simp add: track_merge_fields)
  show ?thesis
  proof (cases "begin_time ?m = None")
    case True
    from track_begin_absent[OF this] obtain err
      where "track dur0 settings db day b e p = (Inl err, db)" by blast
    with assms(1) show ?thesis by simp
  next
    case False
    from track_begin_present[OF this] obtain wd'
      where t: "track dur0 settings db day b e p = (Inr wd', db_store db wd')" by blast
    from track_result[OF t] have "wd' = ?m \<or> set_pause dur0 settings ?m = Inr wd'"
      by simp
    with m have "0 \<le> pause wd'" using set_pause_nonneg[OF assms(2) m] by blast
    with assms(1) have "pauses_ok (db_store db wd')" by (rule pauses_ok_store)
    with t show ?thesis by simp
  qed
qed

lemma remove_pauses_ok:
  assumes "pauses_ok db"
  shows "pauses_ok (snd (remove db day))"
  using assms pauses_ok_delete[OF assms, of day]
  by (simp add: remove_def db_load_def db_remove_def split: option.splits)

lemma notify_pauses_ok:
  assumes "pauses_ok db"
  shows "pauses_ok (snd (notify db day a))"
proof -
  have "pauses_ok (db_store db ((new_WorkDay day)\<lparr>absence := Some a\<rparr>))"
    using assms by (rule pauses_ok_store) (simp add: new_WorkDay_def)
  then show ?thesis by (simp add: notify_def Let_def)
qed

lemma step_pauses_ok:
  assumes "pauses_ok db" "default_pause_ok settings" "pause_arg_ok op"
  shows "pauses_ok (step dur0 settings db op)"
proof (cases op)
  case (Start now)
  with assms show ?thesis by (simp add: start_pauses_ok)
next
  case (Stop now)
  with assms show ?thesis by (simp add: stop_pauses_ok)
next
  case (Track day b e p)
  with assms show ?thesis by (simp add: track_pauses_ok)
next
  case (Remove day)
  with assms show ?thesis by (simp add: remove_pauses_ok)
next
  case (Notify day a)
  with assms show ?thesis by (simp add: notify_pauses_ok)
qed

lemma foldl_step_pauses_ok:
  assumes "default_pause_ok settings"
  shows "pauses_ok db \<Longrightarrow> \<forall>op \<in> set ops. pause_arg_ok op \<Longrightarrow>
         pauses_ok (foldl (step dur0 settings) db ops)"
proof (induction ops arbitrary: db)
  case Nil
  then show ?case by simp
next
  case (Cons op ops)
  from Cons.prems have "pauses_ok (step dur0 settings db op)"
    using step_pauses_ok[OF _ assms] by simp
  with Cons show ?case by simp
qed

text \<open>
  C9, as the code has it. Nothing in the engine checks the sign of a pause. When every
  pause passed to \<open>track\<close> is non-negative and the configured default pause is
  non-negative or absent, then after every prefix of a run from the empty store, every
  record in the store has a non-negative pause.
\<close>

theorem pause_never_negative:
  assumes "default_pause_ok settings" and "\<forall>op \<in> set ops. pause_arg_ok op"
  shows "\<forall>wd \<in> ran (run dur0 settings (take n ops)). 0 \<le> pause wd"
proof -
  have "\<forall>op \<in> set (take n ops). pause_arg_ok op"
    using assms(2) by (meson in_set_takeD)
  moreover have "pauses_ok Map.empty" by (simp add: pauses_ok_def)
  ultimately have "pauses_ok (run dur0 settings (take n ops))"
    unfolding run_def using foldl_step_pauses_ok[OF assms(1)] by blast
  then show ?thesis by (simp add: pauses_ok_def)
qed

theorem pause_never_negative_witness:
  "default_pause_ok cfg1 \<and>
   pause_arg_ok (ops1 ! 0) \<and> pause_arg_ok (ops1 ! 1) \<and> pause_arg_ok (ops1 ! 2) \<and>
   run dur_raises cfg1 (take 1 ops1) day1 = Some (worked (hm 8 0) (Some (hm 17 0)) (hours 1)) \<and>
   0 \<le> pause (worked (hm 8 0) (Some (hm 17 0)) (hours 1)) \<and>
   run dur_raises cfg1 (take 3 ops1) day1
     = Some ((absent SICK)\<lparr>begin_time := Some (hm 9 0), pause := minutes 45\<rparr>) \<and>
   0 \<le> pause ((absent SICK)\<lparr>begin_time := Some (hm 9 0), pause := minutes 45\<rparr>)"
proof -
  have c: "default_pause_ok cfg1" by (simp add: default_pause_ok_def cfg1_def hours_def)
  have o: "\<forall>op \<in> set ops1. pause_arg_ok op" by (simp add: ops1_def minutes_def)
  have a: "pause_arg_ok (ops1 ! 0)" "pause_arg_ok (ops1 ! 1)" "pause_arg_ok (ops1 ! 2)"
    by (simp_all add: ops1_def minutes_def)
  have r1: "run dur_raises cfg1 (take 1 ops1) day1
      = Some (worked (hm 8 0) (Some (hm 17 0)) (hours 1))"
    by (simp add: run_def ops1_def track_def track_merge_def db_load_def db_store_def
        new_WorkDay_def or_time_def or_timedelta_def Let_def set_pause_def duration_def
        time_micros_def hm_def hours_def cfg1_def worked_def)
  have r3: "run dur_raises cfg1 (take 3 ops1) day1
      = Some ((absent SICK)\<lparr>begin_time := Some (hm 9 0), pause := minutes 45\<rparr>)"
    by (simp add: run_def ops1_def track_def track_merge_def notify_def db_load_def
        db_store_def new_WorkDay_def or_time_def or_timedelta_def Let_def set_pause_def
        duration_def time_micros_def hm_def hours_def minutes_def cfg1_def day1_def
        absent_def)
  from r1 have "worked (hm 8 0) (Some (hm 17 0)) (hours 1) \<in> ran (run dur_raises cfg1 (take 1 ops1))"
    by (rule ranI)
  with pause_never_negative[OF c o, of dur_raises 1]
  have p1: "0 \<le> pause (worked (hm 8 0) (Some (hm 17 0)) (hours 1))" by blast
  from r3 have "(absent SICK)\<lparr>begin_time := Some (hm 9 0), pause := minutes 45\<rparr>
      \<in> ran (run dur_raises cfg1 (take 3 ops1))"
    by (rule ranI)
  with pause_never_negative[OF c o, of dur_raises 3]
  have p3: "0 \<le> pause ((absent SICK)\<lparr>begin_time := Some (hm 9 0), pause := minutes 45\<rparr>)"
    by blast
  from c a r1 p1 r3 p3 show ?thesis by blast
qed

text \<open>
  C9 as stated fails: \<open>track\<close> with a pause of minus 30 minutes on the empty store
  writes a record whose pause is negative.
\<close>

theorem pause_never_negative_counterexample:
  "run dur_raises cfg1 [Track day1 (Some (hm 8 0)) None (Some (- minutes 30))] day1
     = Some (worked (hm 8 0) None (- minutes 30)) \<and>
   pause (worked (hm 8 0) None (- minutes 30)) < 0"
  by (simp add: run_def track_def track_merge_def db_load_def db_store_def
      new_WorkDay_def or_time_def or_timedelta_def Let_def worked_def minutes_def)

end
